theory Spec2Isabelle
  imports Main
begin

section \<open>The Fivetran connector client and its sync run\<close>

text \<open>
  The embedded program is the class \<open>FivetranAPI\<close> of \<open>src/file.py\<close>: its constructor,
  \<open>get_sync_status\<close>, \<open>set_connector_paused_status\<close> and the run \<open>__call__\<close>.
  Everything the run does to the outside world is recorded, in order, as a list of
  events; everything the outside world answers is read from a stream of replies, the
  \<open>n\<close>-th reply answering the \<open>n\<close>-th HTTP request of the run. Request headers and
  credentials are never inspected by the control flow and are not part of an event.
\<close>

subsection \<open>Data\<close>

text \<open>
  A parsed JSON value, as \<open>resp.json()\<close> returns it. An object is the list of the items
  of the parsed dictionary (each key once). Numbers are never inspected by the program.
\<close>

datatype json =
    JNull
  | JBool bool
  | JNum int
  | JStr string
  | JArr "json list"
  | JObj "(string \<times> json) list"

text \<open>
  The exceptions the program can meet: a failure of the request itself
  (\<open>requests.exceptions.ConnectionError\<close> and its siblings), the \<open>HTTPError\<close> of
  \<open>raise_for_status\<close>, a body that is not JSON, a missing dictionary key, and
  subscripting a value that is not a dictionary with a string.
\<close>

datatype error =
    ConnectionError
  | HTTPError nat
  | JSONDecodeError
  | KeyError string
  | TypeError

text \<open>
  An HTTP response: its status code, and its body as \<open>.json()\<close> parses it
  (\<open>None\<close> when the body is not valid JSON, so that \<open>.json()\<close> raises).
\<close>

record response =
  status_code :: nat
  json_body :: "json option"

datatype reply = Failed | Replied response

type_synonym world = "nat \<Rightarrow> reply"

datatype message =
    Waiting
  | SyncStatus json
  | SyncEnded json
  | Repausing
  | StartPipeline
  | Updated string bool
  | UpdateError nat
  | Body json

datatype event =
    Get string
  | Patch string bool
  | Sleep nat
  | Print message

record run_state =
  requests :: nat
  trace :: "event list"

record fivetran_api =
  URL :: string
  API_KEY :: string
  API_SECRET :: string
  CONNECTOR_NAME :: string

definition emit :: "event list \<Rightarrow> run_state \<Rightarrow> run_state" where
  "emit es s = s\<lparr>trace := trace s @ es\<rparr>"

definition request :: "event \<Rightarrow> run_state \<Rightarrow> run_state" where
  "request e s = s\<lparr>requests := Suc (requests s), trace := trace s @ [e]\<rparr>"

definition start_state :: run_state where
  "start_state = \<lparr>requests = 0, trace = []\<rparr>"

subsection \<open>The constructor\<close>

definition connector_ids :: "(string \<times> string) list" where
  "connector_ids =
     [(''sherwood_palsql'', ''tidy_interval''),
      (''fsq_labworks'', ''intensive_usefulness''),
      (''hubspot'', ''embarkation_cropped''),
      (''tulare_soiltestvtaglab'', ''shucking_fresco''),
      (''netsuite_suiteanalytics'', ''decayed_neat'')]"

text \<open>
  \<open>__init__\<close>: the secret store is a function of scope and key, always available and
  not part of the network traffic of the run; the dictionary lookup raises
  \<open>KeyError\<close> on a name that is not a key.
\<close>

definition FivetranAPI_init :: "(string \<Rightarrow> string \<Rightarrow> string) \<Rightarrow> string \<Rightarrow> error + fivetran_api" where
  "FivetranAPI_init secrets name =
     (case map_of connector_ids name of
        None \<Rightarrow> Inl (KeyError name)
      | Some cid \<Rightarrow>
          Inr \<lparr>URL = ''https://api.fivetran.com/v1'',
               API_KEY = secrets ''fivetran_bi_service'' ''api_key'',
               API_SECRET = secrets ''fivetran_bi_service'' ''api_secret'',
               CONNECTOR_NAME = cid\<rparr>)"

subsection \<open>Reading the sync status\<close>

text \<open>
  \<open>Response.raise_for_status\<close> of the requests library raises \<open>HTTPError\<close> for the
  status codes 400 to 599 and returns for every other code.
\<close>

definition raise_for_status :: "response \<Rightarrow> error + unit" where
  "raise_for_status resp =
     (if 400 \<le> status_code resp \<and> status_code resp < 600
      then Inl (HTTPError (status_code resp)) else Inr ())"

definition response_json :: "response \<Rightarrow> error + json" where
  "response_json resp =
     (case json_body resp of None \<Rightarrow> Inl JSONDecodeError | Some j \<Rightarrow> Inr j)"

text \<open>Python's \<open>v[k]\<close> for a string \<open>k\<close>.\<close>

fun getitem :: "json \<Rightarrow> string \<Rightarrow> error + json" where
  "getitem (JObj kvs) k =
     (case map_of kvs k of None \<Rightarrow> Inl (KeyError k) | Some v \<Rightarrow> Inr v)"
| "getitem _ k = Inl TypeError"

text \<open>
  Lines 87 to 90 of the source, on the reply of the \<open>GET\<close>: the request may fail, then
  \<open>raise_for_status\<close>, then \<open>resp.json()["data"]["status"]["sync_state"]\<close>.
\<close>

definition read_sync_state :: "reply \<Rightarrow> error + json" where
  "read_sync_state rp =
     (case rp of
        Failed \<Rightarrow> Inl ConnectionError
      | Replied resp \<Rightarrow>
          (case raise_for_status resp of
             Inl e \<Rightarrow> Inl e
           | Inr _ \<Rightarrow>
               (case response_json resp of
                  Inl e \<Rightarrow> Inl e
                | Inr j \<Rightarrow>
                    (case getitem j ''data'' of
                       Inl e \<Rightarrow> Inl e
                     | Inr d \<Rightarrow>
                         (case getitem d ''status'' of
                            Inl e \<Rightarrow> Inl e
                          | Inr st \<Rightarrow> getitem st ''sync_state'')))))"

definition status_url :: "fivetran_api \<Rightarrow> string" where
  "status_url self = URL self @ ''/connections/'' @ CONNECTOR_NAME self"

definition get_sync_status :: "fivetran_api \<Rightarrow> world \<Rightarrow> run_state \<Rightarrow> (error + json) \<times> run_state" where
  "get_sync_status self env s =
     (read_sync_state (env (requests s)), request (Get (status_url self)) s)"

subsection \<open>Pausing and unpausing\<close>

definition connector_url :: "fivetran_api \<Rightarrow> string" where
  "connector_url self = URL self @ ''/connectors/'' @ CONNECTOR_NAME self"

text \<open>
  \<open>set_connector_paused_status\<close>: the \<open>PATCH\<close> may fail; status code 200 prints the
  success line; every other code prints the code and then \<open>response.json()\<close>, which
  raises on a body that is not JSON.
\<close>

definition set_connector_paused_status ::
    "fivetran_api \<Rightarrow> bool \<Rightarrow> world \<Rightarrow> run_state \<Rightarrow> (error + unit) \<times> run_state" where
  "set_connector_paused_status self status_paused env s =
     (let s1 = request (Patch (connector_url self) status_paused) s in
      case env (requests s) of
        Failed \<Rightarrow> (Inl ConnectionError, s1)
      | Replied resp \<Rightarrow>
          if status_code resp = 200
          then (Inr (), emit [Print (Updated (CONNECTOR_NAME self) status_paused)] s1)
          else
            (let s2 = emit [Print (UpdateError (status_code resp))] s1 in
             case response_json resp of
               Inl e \<Rightarrow> (Inl e, s2)
             | Inr j \<Rightarrow> (Inr (), emit [Print (Body j)] s2)))"

subsection \<open>The run\<close>

text \<open>
  The \<open>while True\<close> loop of \<open>__call__\<close>, with fuel counting the iterations allowed:
  \<open>None\<close> is a loop still running when the fuel is spent.
\<close>

fun poll :: "nat \<Rightarrow> fivetran_api \<Rightarrow> world \<Rightarrow> run_state \<Rightarrow> (error + json) option \<times> run_state" where
  "poll 0 self env s = (None, s)"
| "poll (Suc fuel) self env s =
     (case get_sync_status self env s of
        (Inl e, s1) \<Rightarrow> (Some (Inl e), s1)
      | (Inr status, s1) \<Rightarrow>
          (let s2 = emit [Print (SyncStatus status)] s1 in
           if status \<notin> set [JStr ''syncing'']
           then (Some (Inr status), emit [Print (SyncEnded status)] s2)
           else poll fuel self env (emit [Sleep 30] s2)))"

text \<open>\<open>__call__\<close>, from a fresh state.\<close>

definition call :: "nat \<Rightarrow> fivetran_api \<Rightarrow> world \<Rightarrow> (error + unit) option \<times> run_state" where
  "call fuel self env =
     (case get_sync_status self env start_state of
        (Inl e, s1) \<Rightarrow> (Some (Inl e), s1)
      | (Inr status0, s1) \<Rightarrow>
          (case (if status0 = JStr ''paused''
                 then set_connector_paused_status self False env s1
                 else (Inr (), s1)) of
             (Inl e, s2) \<Rightarrow> (Some (Inl e), s2)
           | (Inr _, s2) \<Rightarrow>
               (case poll fuel self env (emit [Print Waiting, Sleep 15] s2) of
                  (None, s3) \<Rightarrow> (None, s3)
                | (Some (Inl e), s3) \<Rightarrow> (Some (Inl e), s3)
                | (Some (Inr status), s3) \<Rightarrow>
                    (case set_connector_paused_status self True env (emit [Print Repausing] s3) of
                       (Inl e, s4) \<Rightarrow> (Some (Inl e), s4)
                     | (Inr _, s4) \<Rightarrow> (Some (Inr ()), emit [Print StartPipeline] s4)))))"

text \<open>The script's last line: construct, then run.\<close>

definition main :: "nat \<Rightarrow> (string \<Rightarrow> string \<Rightarrow> string) \<Rightarrow> string \<Rightarrow> world \<Rightarrow> (error + unit) option \<times> run_state" where
  "main fuel secrets name env =
     (case FivetranAPI_init secrets name of
        Inl e \<Rightarrow> (Some (Inl e), start_state)
      | Inr self \<Rightarrow> call fuel self env)"

subsection \<open>Vocabulary for traces\<close>

text \<open>
  One iteration of the loop that read \<open>syncing\<close>, the state after \<open>k\<close> such
  iterations, and what the loop prints after the read that ends it.
\<close>

definition syncing_round :: "fivetran_api \<Rightarrow> event list" where
  "syncing_round self =
     [Get (status_url self), Print (SyncStatus (JStr ''syncing'')), Sleep 30]"

definition advance :: "nat \<Rightarrow> fivetran_api \<Rightarrow> run_state \<Rightarrow> run_state" where
  "advance k self s =
     s\<lparr>requests := requests s + k,
       trace := trace s @ concat (replicate k (syncing_round self))\<rparr>"

definition closing :: "error + json \<Rightarrow> event list" where
  "closing r = (case r of Inl e \<Rightarrow> [] | Inr st \<Rightarrow> [Print (SyncStatus st), Print (SyncEnded st)])"

text \<open>
  What a \<open>PATCH\<close> returns and prints as a function of its reply, the events of a
  run up to the 15 second sleep, the index of the first request of the loop, whether
  the run gets as far as the loop, and the events from the read that ends the loop to
  the pause request.
\<close>

definition patch_result :: "reply \<Rightarrow> error + unit" where
  "patch_result rp =
     (case rp of
        Failed \<Rightarrow> Inl ConnectionError
      | Replied resp \<Rightarrow>
          if status_code resp = 200 then Inr ()
          else (case json_body resp of None \<Rightarrow> Inl JSONDecodeError | Some j \<Rightarrow> Inr ()))"

definition patch_log :: "fivetran_api \<Rightarrow> bool \<Rightarrow> reply \<Rightarrow> event list" where
  "patch_log self status_paused rp =
     (case rp of
        Failed \<Rightarrow> []
      | Replied resp \<Rightarrow>
          if status_code resp = 200 then [Print (Updated (CONNECTOR_NAME self) status_paused)]
          else Print (UpdateError (status_code resp)) #
               (case json_body resp of None \<Rightarrow> [] | Some j \<Rightarrow> [Print (Body j)]))"

definition prologue :: "fivetran_api \<Rightarrow> world \<Rightarrow> event list" where
  "prologue self env =
     Get (status_url self) #
     (if read_sync_state (env 0) = Inr (JStr ''paused'')
      then Patch (connector_url self) False # patch_log self False (env 1) else [])"

definition poll_base :: "world \<Rightarrow> nat" where
  "poll_base env = (if read_sync_state (env 0) = Inr (JStr ''paused'') then 2 else 1)"

definition start_succeeds :: "world \<Rightarrow> bool" where
  "start_succeeds env =
     (case read_sync_state (env 0) of
        Inl e \<Rightarrow> False
      | Inr status0 \<Rightarrow> status0 \<noteq> JStr ''paused'' \<or> patch_result (env 1) = Inr ())"

definition finishing :: "fivetran_api \<Rightarrow> json \<Rightarrow> event list" where
  "finishing self st =
     [Get (status_url self), Print (SyncStatus st), Print (SyncEnded st),
      Print Repausing, Patch (connector_url self) True]"

text \<open>
  The spec's names for the failures of a status read: a \<open>TransportError\<close> is a failed
  request or the \<open>HTTPError\<close> of \<open>raise_for_status\<close>; a \<open>ProtocolError\<close> is a
  body that is not JSON or in which the path cannot be followed. The field
  \<open>data.status.sync_state\<close> of a response, read off the body as the spec describes
  it: present when the body is an object whose \<open>data\<close> is an object whose
  \<open>status\<close> is an object with the key \<open>sync_state\<close>.
\<close>

definition is_TransportError :: "error \<Rightarrow> bool" where
  "is_TransportError e =
     (case e of ConnectionError \<Rightarrow> True | HTTPError c \<Rightarrow> True | _ \<Rightarrow> False)"

definition is_ProtocolError :: "error \<Rightarrow> bool" where
  "is_ProtocolError e =
     (case e of JSONDecodeError \<Rightarrow> True | KeyError k \<Rightarrow> True | TypeError \<Rightarrow> True | _ \<Rightarrow> False)"

definition sync_state_field :: "response \<Rightarrow> json option" where
  "sync_state_field resp =
     (case json_body resp of
        Some (JObj kvs) \<Rightarrow>
          (case map_of kvs ''data'' of
             Some (JObj d) \<Rightarrow>
               (case map_of d ''status'' of
                  Some (JObj st) \<Rightarrow> map_of st ''sync_state''
                | _ \<Rightarrow> None)
           | _ \<Rightarrow> None)
      | _ \<Rightarrow> None)"

text \<open>Concrete replies and worlds, for evaluating the program on examples.\<close>

definition status_reply :: "string \<Rightarrow> reply" where
  "status_reply st =
     Replied \<lparr>status_code = 200,
       json_body = Some (JObj [(''data'', JObj [(''status'', JObj [(''sync_state'', JStr st)])])])\<rparr>"

definition world_of :: "reply list \<Rightarrow> world" where
  "world_of rs n = (if n < length rs then rs ! n else Failed)"

definition example_api :: fivetran_api where
  "example_api =
     \<lparr>URL = ''https://api.fivetran.com/v1'', API_KEY = ''key'', API_SECRET = ''secret'',
      CONNECTOR_NAME = ''embarkation_cropped''\<rparr>"

definition ack_reply :: reply where
  "ack_reply = Replied \<lparr>status_code = 200, json_body = Some (JObj [])\<rparr>"

definition world_paused :: world where
  "world_paused =
     world_of [status_reply ''paused'', ack_reply, status_reply ''syncing'',
               status_reply ''rescheduled'', ack_reply]"

definition world_rescheduled :: world where
  "world_rescheduled =
     world_of [status_reply ''rescheduled'', status_reply ''rescheduled'', ack_reply]"

definition refusal :: reply where
  "refusal = Replied \<lparr>status_code = 500, json_body = Some (JObj [(''code'', JStr ''ServerError'')])\<rparr>"

definition world_refused :: world where
  "world_refused = world_of [status_reply ''paused'', refusal, status_reply ''rescheduled'', refusal]"

definition world_broken :: world where
  "world_broken = world_of [status_reply ''rescheduled'', status_reply ''syncing'', Failed]"

section \<open>Properties\<close>

subsection \<open>The polling loop\<close>

lemma advance_0: "advance 0 self s = s"
  by (simp add: advance_def)

lemma advance_Suc:
  "advance (Suc k) self s = advance k self (emit [Sleep 30] (emit [Print (SyncStatus (JStr ''syncing''))] (request (Get (status_url self)) s)))"
  by (simp add: advance_def emit_def request_def syncing_round_def)

lemma poll_syncing_prefix:
  "(\<forall>i<k. read_sync_state (env (requests s + i)) = Inr (JStr ''syncing'')) \<Longrightarrow>
     poll (k + fuel) self env s = poll fuel self env (advance k self s)"
proof (induction k arbitrary: s)
  case 0
  then show ?case by (simp add: advance_0)
next
  case (Suc k)
  let ?s1 = "emit [Sleep 30] (emit [Print (SyncStatus (JStr ''syncing''))] (request (Get (status_url self)) s))"
  have first: "read_sync_state (env (requests s)) = Inr (JStr ''syncing'')"
    using Suc.prems [rule_format, of 0] by simp
  have rest: "\<forall>i<k. read_sync_state (env (requests ?s1 + i)) = Inr (JStr ''syncing'')"
  proof (intro allI impI)
    fix i assume "i < k"
    then have "Suc i < Suc k" by simp
    with Suc.prems have "read_sync_state (env (requests s + Suc i)) = Inr (JStr ''syncing'')"
      by blast
    then show "read_sync_state (env (requests ?s1 + i)) = Inr (JStr ''syncing'')"
      by (simp add: emit_def request_def)
  qed
  have "poll (Suc k + fuel) self env s = poll (k + fuel) self env ?s1"
    using first by (simp add: get_sync_status_def)
  also have "\<dots> = poll fuel self env (advance k self ?s1)"
    by (rule Suc.IH [OF rest])
  finally show ?case by (simp only: advance_Suc)
qed

lemma poll_stop:
  "read_sync_state (env (requests s)) \<noteq> Inr (JStr ''syncing'') \<Longrightarrow>
     poll (Suc fuel) self env s =
       (Some (read_sync_state (env (requests s))),
        emit (closing (read_sync_state (env (requests s)))) (request (Get (status_url self)) s))"
  by (cases "read_sync_state (env (requests s))")
     (simp_all add: get_sync_status_def closing_def emit_def)

lemma requests_advance: "requests (advance k self s) = requests s + k"
  by (simp add: advance_def)

lemma poll_running:
  assumes "\<forall>i<fuel. read_sync_state (env (requests s + i)) = Inr (JStr ''syncing'')"
  shows "poll fuel self env s = (None, advance fuel self s)"
proof -
  have "poll (fuel + 0) self env s = poll 0 self env (advance fuel self s)"
    by (rule poll_syncing_prefix [OF assms])
  then show ?thesis by simp
qed

lemma poll_stops_at:
  assumes "\<forall>i<k. read_sync_state (env (requests s + i)) = Inr (JStr ''syncing'')"
    and "read_sync_state (env (requests s + k)) \<noteq> Inr (JStr ''syncing'')"
    and "k < fuel"
  shows "poll fuel self env s =
       (Some (read_sync_state (env (requests s + k))),
        emit (closing (read_sync_state (env (requests s + k))))
          (request (Get (status_url self)) (advance k self s)))"
proof -
  define m where "m = fuel - Suc k"
  have fuel: "fuel = k + Suc m"
    using assms(3) by (simp add: m_def)
  have prefix: "poll (k + Suc m) self env s = poll (Suc m) self env (advance k self s)"
    by (rule poll_syncing_prefix [OF assms(1)])
  have "read_sync_state (env (requests (advance k self s))) \<noteq> Inr (JStr ''syncing'')"
    using assms(2) by (simp add: requests_advance)
  then have "poll (Suc m) self env (advance k self s) =
       (Some (read_sync_state (env (requests (advance k self s)))),
        emit (closing (read_sync_state (env (requests (advance k self s)))))
          (request (Get (status_url self)) (advance k self s)))"
    by (rule poll_stop)
  then show ?thesis
    by (simp only: fuel prefix requests_advance)
qed

lemma poll_cases:
  obtains (running) "\<forall>i<fuel. read_sync_state (env (requests s + i)) = Inr (JStr ''syncing'')"
      "poll fuel self env s = (None, advance fuel self s)"
  | (stopped) k where "k < fuel"
      "\<forall>i<k. read_sync_state (env (requests s + i)) = Inr (JStr ''syncing'')"
      "read_sync_state (env (requests s + k)) \<noteq> Inr (JStr ''syncing'')"
      "poll fuel self env s =
       (Some (read_sync_state (env (requests s + k))),
        emit (closing (read_sync_state (env (requests s + k))))
          (request (Get (status_url self)) (advance k self s)))"
proof (cases "\<forall>i<fuel. read_sync_state (env (requests s + i)) = Inr (JStr ''syncing'')")
  case True
  show ?thesis by (rule running [OF True poll_running [OF True]])
next
  case False
  define P where "P i \<longleftrightarrow> read_sync_state (env (requests s + i)) \<noteq> Inr (JStr ''syncing'')" for i
  from False obtain j where j: "j < fuel" "P j" by (auto simp: P_def)
  define k where "k = (LEAST i. P i)"
  have Pk: "P k" unfolding k_def using j(2) by (rule LeastI)
  have kj: "k \<le> j" unfolding k_def using j(2) by (rule Least_le)
  have before: "\<forall>i<k. \<not> P i" unfolding k_def using not_less_Least by blast
  have a: "k < fuel" using kj j(1) by simp
  have b: "\<forall>i<k. read_sync_state (env (requests s + i)) = Inr (JStr ''syncing'')"
    using before by (simp add: P_def)
  have c: "read_sync_state (env (requests s + k)) \<noteq> Inr (JStr ''syncing'')"
    using Pk by (simp add: P_def)
  show ?thesis by (rule stopped [OF a b c poll_stops_at [OF b c a]])
qed



lemma read_status_reply [simp]: "read_sync_state (status_reply st) = Inr (JStr st)"
  by (simp add: read_sync_state_def status_reply_def raise_for_status_def response_json_def)

text \<open>
  C1. The polling loop ends on the first read that is not \<open>syncing\<close>, never earlier and
  never later. While every read so far returned \<open>syncing\<close> the loop is still running
  and has issued one \<open>GET\<close> per iteration, each followed by the 30 second sleep and
  the next \<open>GET\<close>; when the read number \<open>k\<close> is the first with another outcome, the
  loop returns that outcome after exactly \<open>k + 1\<close> requests, and its last request is
  that read.
\<close>

theorem poll_stops_at_first_non_syncing:
  assumes "\<forall>i<k. read_sync_state (env (requests s + i)) = Inr (JStr ''syncing'')"
  shows "(fuel \<le> k \<longrightarrow>
            fst (poll fuel self env s) = None \<and>
            requests (snd (poll fuel self env s)) = requests s + fuel \<and>
            trace (snd (poll fuel self env s)) =
              trace s @ concat (replicate fuel (syncing_round self))) \<and>
         (k < fuel \<and> read_sync_state (env (requests s + k)) \<noteq> Inr (JStr ''syncing'') \<longrightarrow>
            fst (poll fuel self env s) = Some (read_sync_state (env (requests s + k))) \<and>
            requests (snd (poll fuel self env s)) = requests s + Suc k \<and>
            trace (snd (poll fuel self env s)) =
              trace s @ concat (replicate k (syncing_round self)) @
              Get (status_url self) # closing (read_sync_state (env (requests s + k))))"
proof (intro conjI impI)
  assume le: "fuel \<le> k"
  have "\<forall>i<fuel. read_sync_state (env (requests s + i)) = Inr (JStr ''syncing'')"
    using assms le by simp
  then have run: "poll fuel self env s = (None, advance fuel self s)"
    by (rule poll_running)
  show "fst (poll fuel self env s) = None"
    by (simp add: run)
  show "requests (snd (poll fuel self env s)) = requests s + fuel"
    by (simp add: run advance_def)
  show "trace (snd (poll fuel self env s)) =
      trace s @ concat (replicate fuel (syncing_round self))"
    by (simp add: run advance_def)
next
  assume stop: "k < fuel \<and> read_sync_state (env (requests s + k)) \<noteq> Inr (JStr ''syncing'')"
  have run: "poll fuel self env s =
       (Some (read_sync_state (env (requests s + k))),
        emit (closing (read_sync_state (env (requests s + k))))
          (request (Get (status_url self)) (advance k self s)))"
    using assms stop by (intro poll_stops_at) simp_all
  show "fst (poll fuel self env s) = Some (read_sync_state (env (requests s + k)))"
    by (simp add: run)
  show "requests (snd (poll fuel self env s)) = requests s + Suc k"
    by (simp add: run advance_def emit_def request_def)
  show "trace (snd (poll fuel self env s)) =
      trace s @ concat (replicate k (syncing_round self)) @
      Get (status_url self) # closing (read_sync_state (env (requests s + k)))"
    by (simp add: run advance_def emit_def request_def)
qed

theorem poll_stops_at_first_non_syncing_witness:
  "read_sync_state
     (world_of [status_reply ''syncing'', status_reply ''syncing'', status_reply ''rescheduled'']
        (requests start_state + 0)) = Inr (JStr ''syncing'') \<and>
   read_sync_state
     (world_of [status_reply ''syncing'', status_reply ''syncing'', status_reply ''rescheduled'']
        (requests start_state + 1)) = Inr (JStr ''syncing'') \<and>
   read_sync_state
     (world_of [status_reply ''syncing'', status_reply ''syncing'', status_reply ''rescheduled'']
        (requests start_state + 2)) = Inr (JStr ''rescheduled'') \<and>
   fst (poll 5 example_api
     (world_of [status_reply ''syncing'', status_reply ''syncing'', status_reply ''rescheduled''])
     start_state) = Some (Inr (JStr ''rescheduled'')) \<and>
   requests (snd (poll 5 example_api
     (world_of [status_reply ''syncing'', status_reply ''syncing'', status_reply ''rescheduled''])
     start_state)) = 3 \<and>
   trace (snd (poll 5 example_api
     (world_of [status_reply ''syncing'', status_reply ''syncing'', status_reply ''rescheduled''])
     start_state)) =
     [Get (status_url example_api), Print (SyncStatus (JStr ''syncing'')), Sleep 30,
      Get (status_url example_api), Print (SyncStatus (JStr ''syncing'')), Sleep 30,
      Get (status_url example_api), Print (SyncStatus (JStr ''rescheduled'')),
      Print (SyncEnded (JStr ''rescheduled''))]"
proof -
  let ?env = "world_of [status_reply ''syncing'', status_reply ''syncing'', status_reply ''rescheduled'']"
  have h: "\<forall>i<2. read_sync_state (?env (requests start_state + i)) = Inr (JStr ''syncing'')"
    by (simp add: world_of_def start_state_def less_Suc_eq numeral_2_eq_2)
  have fin: "read_sync_state (?env (requests start_state + 2)) = Inr (JStr ''rescheduled'')"
    by (simp add: world_of_def start_state_def)
  have "(2::nat) < 5 \<and> read_sync_state (?env (requests start_state + 2)) \<noteq> Inr (JStr ''syncing'')"
    by (simp only: fin) simp
  with poll_stops_at_first_non_syncing [OF h, of 5 example_api]
  have "fst (poll 5 example_api ?env start_state) = Some (read_sync_state (?env (requests start_state + 2))) \<and>
        requests (snd (poll 5 example_api ?env start_state)) = requests start_state + Suc 2 \<and>
        trace (snd (poll 5 example_api ?env start_state)) =
          trace start_state @ concat (replicate 2 (syncing_round example_api)) @
          Get (status_url example_api) # closing (read_sync_state (?env (requests start_state + 2)))"
    by blast
  then have "fst (poll 5 example_api ?env start_state) = Some (Inr (JStr ''rescheduled'')) \<and>
        requests (snd (poll 5 example_api ?env start_state)) = requests start_state + Suc 2 \<and>
        trace (snd (poll 5 example_api ?env start_state)) =
          trace start_state @ concat (replicate 2 (syncing_round example_api)) @
          Get (status_url example_api) # closing (Inr (JStr ''rescheduled''))"
    by (simp only: fin)
  then show ?thesis
    by (simp add: world_of_def start_state_def syncing_round_def closing_def numeral_2_eq_2)
qed

subsection \<open>The run\<close>

lemma set_paused_eq:
  "set_connector_paused_status self b env s =
     (patch_result (env (requests s)),
      emit (patch_log self b (env (requests s))) (request (Patch (connector_url self) b) s))"
  by (cases "env (requests s)")
     (auto simp: set_connector_paused_status_def patch_result_def patch_log_def Let_def
        response_json_def emit_def request_def split: option.splits)

lemma call_first_read_fails:
  "read_sync_state (env 0) = Inl e \<Longrightarrow>
     call fuel self env = (Some (Inl e), \<lparr>requests = 1, trace = [Get (status_url self)]\<rparr>)"
  by (simp add: call_def get_sync_status_def start_state_def request_def)

lemma call_unpause_raises:
  "read_sync_state (env 0) = Inr (JStr ''paused'') \<Longrightarrow> patch_result (env 1) = Inl e \<Longrightarrow>
     call fuel self env = (Some (Inl e), \<lparr>requests = 2, trace = prologue self env\<rparr>)"
  by (simp add: call_def get_sync_status_def start_state_def request_def set_paused_eq
      emit_def prologue_def)

lemma call_after_start:
  assumes "start_succeeds env"
  shows "call fuel self env =
     (case poll fuel self env
             \<lparr>requests = poll_base env, trace = prologue self env @ [Print Waiting, Sleep 15]\<rparr> of
        (None, s3) \<Rightarrow> (None, s3)
      | (Some (Inl e), s3) \<Rightarrow> (Some (Inl e), s3)
      | (Some (Inr status), s3) \<Rightarrow>
          (case set_connector_paused_status self True env (emit [Print Repausing] s3) of
             (Inl e, s4) \<Rightarrow> (Some (Inl e), s4)
           | (Inr _, s4) \<Rightarrow> (Some (Inr ()), emit [Print StartPipeline] s4)))"
proof (cases "read_sync_state (env 0)")
  case (Inl e)
  with assms show ?thesis by (simp add: start_succeeds_def)
next
  case (Inr status0)
  show ?thesis
  proof (cases "status0 = JStr ''paused''")
    case True
    with assms Inr have ok: "patch_result (env 1) = Inr ()"
      by (simp add: start_succeeds_def)
    show ?thesis
      using Inr True ok
      by (simp add: call_def get_sync_status_def start_state_def request_def set_paused_eq
          emit_def prologue_def poll_base_def numeral_2_eq_2)
  next
    case False
    then show ?thesis
      using Inr
      by (simp add: call_def get_sync_status_def start_state_def request_def
          emit_def prologue_def poll_base_def)
  qed
qed

lemma start_cases:
  obtains (first_read_fails) e where "read_sync_state (env 0) = Inl e"
  | (unpause_raises) e where "read_sync_state (env 0) = Inr (JStr ''paused'')"
      "patch_result (env 1) = Inl e"
  | (started) "start_succeeds env"
proof (cases "read_sync_state (env 0)")
  case (Inl e)
  then show ?thesis by (rule first_read_fails)
next
  case (Inr status0)
  show ?thesis
  proof (cases "start_succeeds env")
    case True
    then show ?thesis by (rule started)
  next
    case False
    with Inr have p: "status0 = JStr ''paused''" and n: "patch_result (env 1) \<noteq> Inr ()"
      by (simp_all add: start_succeeds_def)
    from n obtain e where "patch_result (env 1) = Inl e"
      by (cases "patch_result (env 1)") simp_all
    with Inr p show ?thesis by (intro unpause_raises) simp_all
  qed
qed

lemma call_cases:
  obtains
    (first_read_fails) e where
      "read_sync_state (env 0) = Inl e"
      "call fuel self env = (Some (Inl e), \<lparr>requests = 1, trace = [Get (status_url self)]\<rparr>)"
  | (unpause_raises) e where
      "read_sync_state (env 0) = Inr (JStr ''paused'')"
      "patch_result (env 1) = Inl e"
      "call fuel self env = (Some (Inl e), \<lparr>requests = 2, trace = prologue self env\<rparr>)"
  | (running)
      "start_succeeds env"
      "\<forall>i<fuel. read_sync_state (env (poll_base env + i)) = Inr (JStr ''syncing'')"
      "call fuel self env =
         (None, \<lparr>requests = poll_base env + fuel,
                 trace = prologue self env @ [Print Waiting, Sleep 15] @
                         concat (replicate fuel (syncing_round self))\<rparr>)"
  | (poll_fails) k e where
      "start_succeeds env" "k < fuel"
      "\<forall>i<k. read_sync_state (env (poll_base env + i)) = Inr (JStr ''syncing'')"
      "read_sync_state (env (poll_base env + k)) = Inl e"
      "call fuel self env =
         (Some (Inl e), \<lparr>requests = poll_base env + Suc k,
                 trace = prologue self env @ [Print Waiting, Sleep 15] @
                         concat (replicate k (syncing_round self)) @ [Get (status_url self)]\<rparr>)"
  | (pause_raises) k st e where
      "start_succeeds env" "k < fuel"
      "\<forall>i<k. read_sync_state (env (poll_base env + i)) = Inr (JStr ''syncing'')"
      "read_sync_state (env (poll_base env + k)) = Inr st" "st \<noteq> JStr ''syncing''"
      "patch_result (env (poll_base env + Suc k)) = Inl e"
      "call fuel self env =
         (Some (Inl e), \<lparr>requests = poll_base env + Suc (Suc k),
                 trace = prologue self env @ [Print Waiting, Sleep 15] @
                         concat (replicate k (syncing_round self)) @ finishing self st @
                         patch_log self True (env (poll_base env + Suc k))\<rparr>)"
  | (completed) k st where
      "start_succeeds env" "k < fuel"
      "\<forall>i<k. read_sync_state (env (poll_base env + i)) = Inr (JStr ''syncing'')"
      "read_sync_state (env (poll_base env + k)) = Inr st" "st \<noteq> JStr ''syncing''"
      "patch_result (env (poll_base env + Suc k)) = Inr ()"
      "call fuel self env =
         (Some (Inr ()), \<lparr>requests = poll_base env + Suc (Suc k),
                 trace = prologue self env @ [Print Waiting, Sleep 15] @
                         concat (replicate k (syncing_round self)) @ finishing self st @
                         patch_log self True (env (poll_base env + Suc k)) @
                         [Print StartPipeline]\<rparr>)"
proof (cases rule: start_cases [of env])
  case (first_read_fails e)
  then show ?thesis using that(1) call_first_read_fails by blast
next
  case (unpause_raises e)
  then show ?thesis using that(2) call_unpause_raises by blast
next
  case started
  let ?s = "\<lparr>requests = poll_base env, trace = prologue self env @ [Print Waiting, Sleep 15]\<rparr>"
  note unfold = call_after_start [OF started, of fuel self]
  show ?thesis
  proof (cases rule: poll_cases [of fuel env ?s self])
    case running
    from running(1) have a: "\<forall>i<fuel. read_sync_state (env (poll_base env + i)) = Inr (JStr ''syncing'')"
      by simp
    have "call fuel self env =
         (None, \<lparr>requests = poll_base env + fuel,
                 trace = prologue self env @ [Print Waiting, Sleep 15] @
                         concat (replicate fuel (syncing_round self))\<rparr>)"
      by (simp add: unfold running(2) advance_def)
    with started a show ?thesis by (rule that(3))
  next
    case (stopped k)
    from stopped(2) have a: "\<forall>i<k. read_sync_state (env (poll_base env + i)) = Inr (JStr ''syncing'')"
      by simp
    from stopped(3) have ne: "read_sync_state (env (poll_base env + k)) \<noteq> Inr (JStr ''syncing'')"
      by simp
    show ?thesis
    proof (cases "read_sync_state (env (poll_base env + k))")
      case (Inl e)
      have "call fuel self env =
         (Some (Inl e), \<lparr>requests = poll_base env + Suc k,
                 trace = prologue self env @ [Print Waiting, Sleep 15] @
                         concat (replicate k (syncing_round self)) @ [Get (status_url self)]\<rparr>)"
        using Inl by (simp add: unfold stopped(4) advance_def closing_def emit_def request_def)
      with started stopped(1) a Inl show ?thesis by (rule that(4))
    next
      case (Inr st)
      with ne have st: "st \<noteq> JStr ''syncing''" by simp
      show ?thesis
      proof (cases "patch_result (env (poll_base env + Suc k))")
        case (Inl e)
        have "call fuel self env =
         (Some (Inl e), \<lparr>requests = poll_base env + Suc (Suc k),
                 trace = prologue self env @ [Print Waiting, Sleep 15] @
                         concat (replicate k (syncing_round self)) @ finishing self st @
                         patch_log self True (env (poll_base env + Suc k))\<rparr>)"
          using Inr Inl
          by (simp add: unfold stopped(4) advance_def closing_def emit_def request_def
              set_paused_eq finishing_def)
        with started stopped(1) a Inr st Inl show ?thesis by (rule that(5))
      next
        case ok: (Inr u)
        have "call fuel self env =
         (Some (Inr ()), \<lparr>requests = poll_base env + Suc (Suc k),
                 trace = prologue self env @ [Print Waiting, Sleep 15] @
                         concat (replicate k (syncing_round self)) @ finishing self st @
                         patch_log self True (env (poll_base env + Suc k)) @
                         [Print StartPipeline]\<rparr>)"
          using Inr ok
          by (simp add: unfold stopped(4) advance_def closing_def emit_def request_def
              set_paused_eq finishing_def)
        moreover from ok have "patch_result (env (poll_base env + Suc k)) = Inr ()" by simp
        ultimately show ?thesis using started stopped(1) a Inr st that(6) by blast
      qed
    qed
  qed
qed

lemma in_rounds:
  "x \<in> set (concat (replicate k (syncing_round self))) \<Longrightarrow>
     x = Get (status_url self) \<or> x = Print (SyncStatus (JStr ''syncing'')) \<or> x = Sleep 30"
  by (induction k) (auto simp: syncing_round_def)

lemma in_patch_log: "x \<in> set (patch_log self b rp) \<Longrightarrow> \<exists>m. x = Print m"
  by (cases rp) (auto simp: patch_log_def split: if_splits option.splits)

lemma Patch_notin_round [simp]: "Patch u b \<notin> set (syncing_round self)"
  by (simp add: syncing_round_def)

lemma Patch_notin_rounds [simp]: "Patch u b \<notin> set (concat (replicate k (syncing_round self)))"
  using in_rounds by fastforce

lemma Patch_notin_patch_log [simp]: "Patch u b \<notin> set (patch_log self c rp)"
  using in_patch_log by fastforce

lemma pause_notin_prologue [simp]: "Patch u True \<notin> set (prologue self env)"
  by (simp add: prologue_def)

lemma trace_after_start:
  assumes "start_succeeds env"
  shows "\<exists>rest. trace (snd (call fuel self env)) =
            prologue self env @ [Print Waiting, Sleep 15] @ rest \<and>
          (\<forall>u. Patch u False \<notin> set rest)"
proof (cases rule: call_cases [of env fuel self])
  case (first_read_fails e)
  with assms show ?thesis by (simp add: start_succeeds_def)
next
  case (unpause_raises e)
  with assms show ?thesis by (simp add: start_succeeds_def)
next
  case running
  show ?thesis by (simp add: running(3))
next
  case (poll_fails k e)
  show ?thesis by (simp add: poll_fails(5))
next
  case (pause_raises k st e)
  show ?thesis by (simp add: pause_raises(7) finishing_def)
next
  case (completed k st)
  show ?thesis by (simp add: completed(7) finishing_def)
qed

lemma trace_start_fails:
  assumes "\<not> start_succeeds env"
  shows "trace (snd (call fuel self env)) = prologue self env \<and>
         (\<exists>e. fst (call fuel self env) = Some (Inl e))"
proof (cases rule: call_cases [of env fuel self])
  case (first_read_fails e)
  then show ?thesis by (simp add: prologue_def)
next
  case (unpause_raises e)
  then show ?thesis by simp
qed (use assms in simp_all)

lemma call_world_paused:
  "call 5 example_api world_paused =
     (Some (Inr ()),
      \<lparr>requests = 5,
       trace =
         [Get (status_url example_api),
          Patch (connector_url example_api) False,
          Print (Updated ''embarkation_cropped'' False),
          Print Waiting, Sleep 15,
          Get (status_url example_api), Print (SyncStatus (JStr ''syncing'')), Sleep 30,
          Get (status_url example_api), Print (SyncStatus (JStr ''rescheduled'')),
          Print (SyncEnded (JStr ''rescheduled'')),
          Print Repausing,
          Patch (connector_url example_api) True,
          Print (Updated ''embarkation_cropped'' True),
          Print StartPipeline]\<rparr>)"
  by (simp add: call_def world_paused_def world_of_def get_sync_status_def start_state_def
      request_def emit_def set_connector_paused_status_def ack_reply_def example_api_def
      eval_nat_numeral)

lemma call_world_rescheduled:
  "call 5 example_api world_rescheduled =
     (Some (Inr ()),
      \<lparr>requests = 3,
       trace =
         [Get (status_url example_api),
          Print Waiting, Sleep 15,
          Get (status_url example_api), Print (SyncStatus (JStr ''rescheduled'')),
          Print (SyncEnded (JStr ''rescheduled'')),
          Print Repausing,
          Patch (connector_url example_api) True,
          Print (Updated ''embarkation_cropped'' True),
          Print StartPipeline]\<rparr>)"
  by (simp add: call_def world_rescheduled_def world_of_def get_sync_status_def start_state_def
      request_def emit_def set_connector_paused_status_def ack_reply_def example_api_def
      eval_nat_numeral)


text \<open>
  C2. In every run that completes, and in every run that issues a pause request at all,
  the trace has exactly one pause request; it comes directly after the read of the loop
  that returned a status other than \<open>syncing\<close> (only the three print lines for that
  status lie between them), whatever the status at the start was.
\<close>

theorem pause_once_after_terminal_status:
  assumes "call fuel self env = (r, s')"
    and "r = Some (Inr ()) \<or> Patch (connector_url self) True \<in> set (trace s')"
  shows "\<exists>pre st post.
           trace s' =
             pre @
             [Get (status_url self), Print (SyncStatus st), Print (SyncEnded st),
              Print Repausing, Patch (connector_url self) True] @ post \<and>
           read_sync_state (env (requests s' - 2)) = Inr st \<and>
           st \<noteq> JStr ''syncing'' \<and>
           (\<forall>u. Patch u True \<notin> set pre) \<and> (\<forall>u. Patch u True \<notin> set post)"
proof (cases rule: call_cases [of env fuel self])
  case (first_read_fails e)
  with assms show ?thesis by auto
next
  case (unpause_raises e)
  with assms show ?thesis by auto
next
  case running
  with assms show ?thesis by auto
next
  case (poll_fails k e)
  with assms show ?thesis by auto
next
  case (pause_raises k st e)
  let ?pre = "prologue self env @ [Print Waiting, Sleep 15] @ concat (replicate k (syncing_round self))"
  let ?post = "patch_log self True (env (poll_base env + Suc k))"
  from assms(1) pause_raises(7)
  have s': "s' = \<lparr>requests = poll_base env + Suc (Suc k),
                   trace = ?pre @ finishing self st @ ?post\<rparr>"
    by simp
  have "trace s' = ?pre @ [Get (status_url self), Print (SyncStatus st), Print (SyncEnded st),
              Print Repausing, Patch (connector_url self) True] @ ?post"
    by (simp add: s' finishing_def)
  moreover have "read_sync_state (env (requests s' - 2)) = Inr st"
    using pause_raises(4) by (simp add: s')
  moreover have "\<forall>u. Patch u True \<notin> set ?pre" by simp
  moreover have "\<forall>u. Patch u True \<notin> set ?post" by simp
  ultimately show ?thesis using pause_raises(5) by blast
next
  case (completed k st)
  let ?pre = "prologue self env @ [Print Waiting, Sleep 15] @ concat (replicate k (syncing_round self))"
  let ?post = "patch_log self True (env (poll_base env + Suc k)) @ [Print StartPipeline]"
  from assms(1) completed(7)
  have s': "s' = \<lparr>requests = poll_base env + Suc (Suc k),
                   trace = ?pre @ finishing self st @ ?post\<rparr>"
    by simp
  have "trace s' = ?pre @ [Get (status_url self), Print (SyncStatus st), Print (SyncEnded st),
              Print Repausing, Patch (connector_url self) True] @ ?post"
    by (simp add: s' finishing_def)
  moreover have "read_sync_state (env (requests s' - 2)) = Inr st"
    using completed(4) by (simp add: s')
  moreover have "\<forall>u. Patch u True \<notin> set ?pre" by simp
  moreover have "\<forall>u. Patch u True \<notin> set ?post" by simp
  ultimately show ?thesis using completed(5) by blast
qed

theorem pause_once_after_terminal_status_witness:
  "fst (call 5 example_api world_paused) = Some (Inr ()) \<and>
   (\<exists>pre st post.
      trace (snd (call 5 example_api world_paused)) =
        pre @
        [Get (status_url example_api), Print (SyncStatus st), Print (SyncEnded st),
         Print Repausing, Patch (connector_url example_api) True] @ post \<and>
      read_sync_state (world_paused (requests (snd (call 5 example_api world_paused)) - 2)) = Inr st \<and>
      st \<noteq> JStr ''syncing'' \<and>
      (\<forall>u. Patch u True \<notin> set pre) \<and> (\<forall>u. Patch u True \<notin> set post))"
proof -
  have c: "call 5 example_api world_paused =
      (Some (Inr ()), snd (call 5 example_api world_paused))"
    by (simp add: call_world_paused)
  have f: "fst (call 5 example_api world_paused) = Some (Inr ())"
    by (simp add: call_world_paused)
  have h: "Some (Inr ()) = Some (Inr ()) \<or>
      Patch (connector_url example_api) True \<in> set (trace (snd (call 5 example_api world_paused)))"
    by simp
  from pause_once_after_terminal_status [OF c h] f show ?thesis by blast
qed

lemma prologue_paused:
  "read_sync_state (env 0) = Inr (JStr ''paused'') \<Longrightarrow>
     prologue self env =
       Get (status_url self) # Patch (connector_url self) False # patch_log self False (env 1)"
  by (simp add: prologue_def)

lemma prologue_not_paused:
  "read_sync_state (env 0) \<noteq> Inr (JStr ''paused'') \<Longrightarrow> prologue self env = [Get (status_url self)]"
  by (simp add: prologue_def)

lemma trace_not_paused:
  assumes "read_sync_state (env 0) \<noteq> Inr (JStr ''paused'')"
  shows "Patch u False \<notin> set (trace (snd (call fuel self env)))"
proof (cases "start_succeeds env")
  case True
  from trace_after_start [OF True, of fuel self] obtain rest where
    "trace (snd (call fuel self env)) = prologue self env @ [Print Waiting, Sleep 15] @ rest"
    "\<forall>u. Patch u False \<notin> set rest" by blast
  then show ?thesis by (simp add: prologue_not_paused [where env = env, OF assms])
next
  case False
  from trace_start_fails [OF False, of fuel self]
  show ?thesis by (simp add: prologue_not_paused [where env = env, OF assms])
qed

lemma trace_paused:
  assumes "read_sync_state (env 0) = Inr (JStr ''paused'')"
  shows "(trace (snd (call fuel self env)) =
            Get (status_url self) # Patch (connector_url self) False # patch_log self False (env 1) \<and>
          (\<exists>e. fst (call fuel self env) = Some (Inl e))) \<or>
         (\<exists>rest. trace (snd (call fuel self env)) =
            Get (status_url self) # Patch (connector_url self) False #
            (patch_log self False (env 1) @ [Print Waiting]) @ Sleep 15 # rest \<and>
            (\<forall>u. Patch u False \<notin> set rest))"
proof (cases "start_succeeds env")
  case True
  from trace_after_start [OF True, of fuel self] obtain rest where
    "trace (snd (call fuel self env)) = prologue self env @ [Print Waiting, Sleep 15] @ rest"
    "\<forall>u. Patch u False \<notin> set rest" by blast
  then show ?thesis by (simp add: prologue_paused [where env = env, OF assms])
next
  case False
  from trace_start_fails [OF False, of fuel self]
  show ?thesis by (simp add: prologue_paused [where env = env, OF assms])
qed

text \<open>
  C3. When the first status read of a run returns \<open>paused\<close>, the unpause request is
  the event right after that read, before any read of the loop, and it is the only
  unpause request of the run; when the first read returns anything else (or raises),
  the run issues no unpause request at all.
\<close>

theorem unpause_exactly_when_initially_paused:
  "(read_sync_state (env 0) = Inr (JStr ''paused'') \<longrightarrow>
      (\<exists>rest. trace (snd (call fuel self env)) =
          Get (status_url self) # Patch (connector_url self) False # rest \<and>
        (\<forall>u. Patch u False \<notin> set rest))) \<and>
   (read_sync_state (env 0) \<noteq> Inr (JStr ''paused'') \<longrightarrow>
      (\<forall>u. Patch u False \<notin> set (trace (snd (call fuel self env)))))"
proof (intro conjI impI)
  assume p: "read_sync_state (env 0) = Inr (JStr ''paused'')"
  from trace_paused [where env = env and fuel = fuel and self = self, OF p]
  show "\<exists>rest. trace (snd (call fuel self env)) =
          Get (status_url self) # Patch (connector_url self) False # rest \<and>
        (\<forall>u. Patch u False \<notin> set rest)"
  proof
    assume "trace (snd (call fuel self env)) =
            Get (status_url self) # Patch (connector_url self) False # patch_log self False (env 1) \<and>
          (\<exists>e. fst (call fuel self env) = Some (Inl e))"
    then show ?thesis by simp
  next
    assume "\<exists>rest. trace (snd (call fuel self env)) =
            Get (status_url self) # Patch (connector_url self) False #
            (patch_log self False (env 1) @ [Print Waiting]) @ Sleep 15 # rest \<and>
            (\<forall>u. Patch u False \<notin> set rest)"
    then obtain rest where
      "trace (snd (call fuel self env)) =
            Get (status_url self) # Patch (connector_url self) False #
            (patch_log self False (env 1) @ [Print Waiting]) @ Sleep 15 # rest"
      "\<forall>u. Patch u False \<notin> set rest" by blast
    then show ?thesis by simp
  qed
next
  assume "read_sync_state (env 0) \<noteq> Inr (JStr ''paused'')"
  then show "\<forall>u. Patch u False \<notin> set (trace (snd (call fuel self env)))"
    using trace_not_paused by blast
qed

theorem unpause_exactly_when_initially_paused_witness:
  "read_sync_state (world_paused 0) = Inr (JStr ''paused'') \<and>
   (\<exists>rest. trace (snd (call 5 example_api world_paused)) =
       Get (status_url example_api) # Patch (connector_url example_api) False # rest \<and>
     (\<forall>u. Patch u False \<notin> set rest)) \<and>
   read_sync_state (world_rescheduled 0) \<noteq> Inr (JStr ''paused'') \<and>
   (\<forall>u. Patch u False \<notin> set (trace (snd (call 5 example_api world_rescheduled))))"
proof -
  have p: "read_sync_state (world_paused 0) = Inr (JStr ''paused'')"
    by (simp add: world_paused_def world_of_def)
  have n: "read_sync_state (world_rescheduled 0) \<noteq> Inr (JStr ''paused'')"
    by (simp add: world_rescheduled_def world_of_def)
  from p n
    unpause_exactly_when_initially_paused [of world_paused 5 example_api]
    unpause_exactly_when_initially_paused [of world_rescheduled 5 example_api]
  show ?thesis by blast
qed



lemma call_poll_fails:
  assumes "start_succeeds env" and "k < fuel"
    and "\<forall>i<k. read_sync_state (env (poll_base env + i)) = Inr (JStr ''syncing'')"
    and "read_sync_state (env (poll_base env + k)) = Inl e"
  shows "call fuel self env =
     (Some (Inl e),
      \<lparr>requests = poll_base env + Suc k,
       trace = prologue self env @ [Print Waiting, Sleep 15] @
               concat (replicate k (syncing_round self)) @ [Get (status_url self)]\<rparr>)"
proof -
  let ?s = "\<lparr>requests = poll_base env, trace = prologue self env @ [Print Waiting, Sleep 15]\<rparr>"
  have a: "\<forall>i<k. read_sync_state (env (requests ?s + i)) = Inr (JStr ''syncing'')"
    using assms(3) by simp
  have b: "read_sync_state (env (requests ?s + k)) \<noteq> Inr (JStr ''syncing'')"
    using assms(4) by simp
  have "poll fuel self env ?s =
      (Some (Inl e), emit (closing (Inl e)) (request (Get (status_url self)) (advance k self ?s)))"
    using poll_stops_at [OF a b assms(2), of self] assms(4) by simp
  then show ?thesis
    by (simp add: call_after_start [OF assms(1)] advance_def closing_def emit_def request_def)
qed

lemma call_reaches_pause:
  assumes "start_succeeds env" and "k < fuel"
    and "\<forall>i<k. read_sync_state (env (poll_base env + i)) = Inr (JStr ''syncing'')"
    and "read_sync_state (env (poll_base env + k)) = Inr st" and "st \<noteq> JStr ''syncing''"
  shows "call fuel self env =
     ((case patch_result (env (poll_base env + Suc k)) of
         Inl e \<Rightarrow> Some (Inl e) | Inr u \<Rightarrow> Some (Inr ())),
      \<lparr>requests = poll_base env + Suc (Suc k),
       trace = prologue self env @ [Print Waiting, Sleep 15] @
               concat (replicate k (syncing_round self)) @ finishing self st @
               patch_log self True (env (poll_base env + Suc k)) @
               (case patch_result (env (poll_base env + Suc k)) of
                  Inl e \<Rightarrow> [] | Inr u \<Rightarrow> [Print StartPipeline])\<rparr>)"
proof -
  let ?s = "\<lparr>requests = poll_base env, trace = prologue self env @ [Print Waiting, Sleep 15]\<rparr>"
  have a: "\<forall>i<k. read_sync_state (env (requests ?s + i)) = Inr (JStr ''syncing'')"
    using assms(3) by simp
  have b: "read_sync_state (env (requests ?s + k)) \<noteq> Inr (JStr ''syncing'')"
    using assms(4,5) by simp
  have "poll fuel self env ?s =
      (Some (Inr st), emit (closing (Inr st)) (request (Get (status_url self)) (advance k self ?s)))"
    using poll_stops_at [OF a b assms(2), of self] assms(4) by simp
  then show ?thesis
    by (cases "patch_result (env (poll_base env + Suc k))")
       (simp_all add: call_after_start [OF assms(1)] advance_def closing_def emit_def request_def
          set_paused_eq finishing_def)
qed

lemma start_succeeds_not_paused:
  "read_sync_state (env 0) = Inr status0 \<Longrightarrow> status0 \<noteq> JStr ''paused'' \<Longrightarrow> start_succeeds env"
  by (simp add: start_succeeds_def)

lemma poll_base_not_paused:
  "read_sync_state (env 0) \<noteq> Inr (JStr ''paused'') \<Longrightarrow> poll_base env = Suc 0"
  by (simp add: poll_base_def)

text \<open>
  C4, as the spec states it, fails: the 15 second sleep is unconditional. A run whose
  first read returns \<open>rescheduled\<close> sleeps 15 seconds before the first read of the
  loop.
\<close>

theorem settle_delay_without_unpause_counterexample:
  "read_sync_state (world_rescheduled 0) = Inr (JStr ''rescheduled'') \<and>
   take 4 (trace (snd (call 5 example_api world_rescheduled))) =
     [Get (status_url example_api), Print Waiting, Sleep 15, Get (status_url example_api)]"
proof (rule conjI)
  show "read_sync_state (world_rescheduled 0) = Inr (JStr ''rescheduled'')"
    by (simp add: world_rescheduled_def world_of_def)
  show "take 4 (trace (snd (call 5 example_api world_rescheduled))) =
     [Get (status_url example_api), Print Waiting, Sleep 15, Get (status_url example_api)]"
    by (simp add: call_world_rescheduled)
qed

text \<open>
  C4, amended. In every run whose first read returns a status other than \<open>paused\<close>,
  no unpause request is issued, the 15 second sleep still comes between the first read
  and the first read of the loop, and once the loop reads a status other than
  \<open>syncing\<close> the run goes on to the pause request with nothing but print lines in
  between.
\<close>

theorem settle_delay_without_unpause:
  assumes "read_sync_state (env 0) = Inr status0" and "status0 \<noteq> JStr ''paused''"
  shows "(\<exists>rest. trace (snd (call fuel self env)) =
            [Get (status_url self), Print Waiting, Sleep 15] @ rest \<and>
          (\<forall>u. Patch u False \<notin> set rest)) \<and>
         (\<forall>k st. k < fuel \<and>
            (\<forall>i<k. read_sync_state (env (Suc i)) = Inr (JStr ''syncing'')) \<and>
            read_sync_state (env (Suc k)) = Inr st \<and> st \<noteq> JStr ''syncing'' \<longrightarrow>
            (\<exists>post. trace (snd (call fuel self env)) =
               [Get (status_url self), Print Waiting, Sleep 15] @
               concat (replicate k (syncing_round self)) @
               [Get (status_url self), Print (SyncStatus st), Print (SyncEnded st),
                Print Repausing, Patch (connector_url self) True] @ post \<and>
             (\<forall>e\<in>set post. \<exists>m. e = Print m)))"
proof (intro conjI allI impI)
  have np: "read_sync_state (env 0) \<noteq> Inr (JStr ''paused'')"
    using assms by simp
  have ok: "start_succeeds env"
    using assms by (rule start_succeeds_not_paused)
  have pro: "prologue self env = [Get (status_url self)]"
    using np by (rule prologue_not_paused)
  have base: "poll_base env = Suc 0"
    using np by (rule poll_base_not_paused)
  from trace_after_start [OF ok, of fuel self]
  show "\<exists>rest. trace (snd (call fuel self env)) =
            [Get (status_url self), Print Waiting, Sleep 15] @ rest \<and>
          (\<forall>u. Patch u False \<notin> set rest)"
    by (simp add: pro)
  fix k st
  assume h: "k < fuel \<and>
            (\<forall>i<k. read_sync_state (env (Suc i)) = Inr (JStr ''syncing'')) \<and>
            read_sync_state (env (Suc k)) = Inr st \<and> st \<noteq> JStr ''syncing''"
  let ?post = "patch_log self True (env (poll_base env + Suc k)) @
               (case patch_result (env (poll_base env + Suc k)) of
                  Inl e \<Rightarrow> [] | Inr u \<Rightarrow> [Print StartPipeline])"
  have run: "trace (snd (call fuel self env)) =
      prologue self env @ [Print Waiting, Sleep 15] @
      concat (replicate k (syncing_round self)) @ finishing self st @ ?post"
    using h by (subst call_reaches_pause [OF ok, of k fuel st self]) (simp_all add: base)
  have "\<forall>e\<in>set ?post. \<exists>m. e = Print m"
    using in_patch_log by (auto split: sum.splits)
  with run show "\<exists>post. trace (snd (call fuel self env)) =
               [Get (status_url self), Print Waiting, Sleep 15] @
               concat (replicate k (syncing_round self)) @
               [Get (status_url self), Print (SyncStatus st), Print (SyncEnded st),
                Print Repausing, Patch (connector_url self) True] @ post \<and>
             (\<forall>e\<in>set post. \<exists>m. e = Print m)"
    by (simp add: pro finishing_def)
qed

theorem settle_delay_without_unpause_witness:
  "read_sync_state (world_rescheduled 0) = Inr (JStr ''rescheduled'') \<and>
   JStr ''rescheduled'' \<noteq> JStr ''paused'' \<and>
   (\<exists>rest. trace (snd (call 5 example_api world_rescheduled)) =
      [Get (status_url example_api), Print Waiting, Sleep 15] @ rest \<and>
    (\<forall>u. Patch u False \<notin> set rest)) \<and>
   (\<exists>post. trace (snd (call 5 example_api world_rescheduled)) =
      [Get (status_url example_api), Print Waiting, Sleep 15] @
      concat (replicate 0 (syncing_round example_api)) @
      [Get (status_url example_api), Print (SyncStatus (JStr ''rescheduled'')),
       Print (SyncEnded (JStr ''rescheduled'')),
       Print Repausing, Patch (connector_url example_api) True] @ post \<and>
    (\<forall>e\<in>set post. \<exists>m. e = Print m))"
proof -
  have a: "read_sync_state (world_rescheduled 0) = Inr (JStr ''rescheduled'')"
    by (simp add: world_rescheduled_def world_of_def)
  have b: "JStr ''rescheduled'' \<noteq> JStr ''paused''"
    by simp
  have c: "(0::nat) < 5 \<and>
      (\<forall>i<0. read_sync_state (world_rescheduled (Suc i)) = Inr (JStr ''syncing'')) \<and>
      read_sync_state (world_rescheduled (Suc 0)) = Inr (JStr ''rescheduled'') \<and>
      JStr ''rescheduled'' \<noteq> JStr ''syncing''"
    by (simp add: world_rescheduled_def world_of_def)
  from a b c settle_delay_without_unpause
      [where env = world_rescheduled and fuel = 5 and self = example_api, OF a b]
  show ?thesis by blast
qed

text \<open>
  C5. When the run has reached the loop and the read number \<open>k\<close> of the loop is the
  first that is not \<open>syncing\<close> and raises, the run ends with that error (with any
  fuel above \<open>k\<close>), the failed read is its last event, and no pause request occurs
  anywhere in its trace.
\<close>

theorem poll_failure_aborts_without_pause:
  assumes "start_succeeds env" and "k < fuel"
    and "\<forall>i<k. read_sync_state (env (poll_base env + i)) = Inr (JStr ''syncing'')"
    and "read_sync_state (env (poll_base env + k)) = Inl e"
  shows "fst (call fuel self env) = Some (Inl e) \<and>
         trace (snd (call fuel self env)) =
           prologue self env @ [Print Waiting, Sleep 15] @
           concat (replicate k (syncing_round self)) @ [Get (status_url self)] \<and>
         (\<forall>u. Patch u True \<notin> set (trace (snd (call fuel self env))))"
  by (simp add: call_poll_fails [OF assms])

theorem poll_failure_aborts_without_pause_witness:
  "start_succeeds world_broken \<and> (1::nat) < 5 \<and>
   read_sync_state (world_broken (poll_base world_broken + 0)) = Inr (JStr ''syncing'') \<and>
   read_sync_state (world_broken (poll_base world_broken + 1)) = Inl ConnectionError \<and>
   fst (call 5 example_api world_broken) = Some (Inl ConnectionError) \<and>
   trace (snd (call 5 example_api world_broken)) =
     prologue example_api world_broken @ [Print Waiting, Sleep 15] @
     concat (replicate 1 (syncing_round example_api)) @ [Get (status_url example_api)] \<and>
   (\<forall>u. Patch u True \<notin> set (trace (snd (call 5 example_api world_broken))))"
proof -
  have a: "start_succeeds world_broken"
    by (simp add: start_succeeds_def world_broken_def world_of_def)
  have b: "(1::nat) < 5" by simp
  have base: "poll_base world_broken = 1"
    by (simp add: poll_base_def world_broken_def world_of_def)
  have c: "\<forall>i<1. read_sync_state (world_broken (poll_base world_broken + i)) = Inr (JStr ''syncing'')"
    by (simp add: base) (simp add: world_broken_def world_of_def)
  have d: "read_sync_state (world_broken (poll_base world_broken + 1)) = Inl ConnectionError"
    by (simp add: base) (simp add: world_broken_def world_of_def read_sync_state_def)
  have c0: "read_sync_state (world_broken (poll_base world_broken + 0)) = Inr (JStr ''syncing'')"
    using c by simp
  from a b c0 d poll_failure_aborts_without_pause [OF a b c d, of example_api]
  show ?thesis by blast
qed

text \<open>
  C6, as the spec states it, fails: a response with status 201 is a 2xx response for
  which the operation prints the error line, not the success line; a request that
  fails raises; and a response with status 204 and no JSON body makes the operation
  raise after the error line.
\<close>

theorem mutation_reports_and_run_continues_counterexample:
  "set_connector_paused_status example_api True
     (world_of [Replied \<lparr>status_code = 201, json_body = Some (JObj [])\<rparr>]) start_state =
     (Inr (),
      \<lparr>requests = 1,
       trace = [Patch (connector_url example_api) True, Print (UpdateError 201),
                Print (Body (JObj []))]\<rparr>) \<and>
   set_connector_paused_status example_api True (world_of [Failed]) start_state =
     (Inl ConnectionError,
      \<lparr>requests = 1, trace = [Patch (connector_url example_api) True]\<rparr>) \<and>
   set_connector_paused_status example_api True
     (world_of [Replied \<lparr>status_code = 204, json_body = None\<rparr>]) start_state =
     (Inl JSONDecodeError,
      \<lparr>requests = 1,
       trace = [Patch (connector_url example_api) True, Print (UpdateError 204)]\<rparr>)"
  by (simp add: set_connector_paused_status_def world_of_def start_state_def request_def
      emit_def response_json_def)

text \<open>
  C6, amended. When the \<open>PATCH\<close> is answered with status 200 the operation prints the
  success line and returns; when it is answered with any other status and a JSON body
  it prints the status code and the body and returns as well. Its result is
  \<open>patch_result\<close> of the reply, and a run whose loop has read a status other than
  \<open>syncing\<close> reaches its end whenever the pause request returns, whatever status
  code answered it.
\<close>

theorem mutation_reports_and_run_continues:
  "(env (requests s) = Replied resp \<and> status_code resp = 200 \<longrightarrow>
      set_connector_paused_status self b env s =
        (Inr (),
         \<lparr>requests = Suc (requests s),
          trace = trace s @
            [Patch (connector_url self) b, Print (Updated (CONNECTOR_NAME self) b)]\<rparr>)) \<and>
   (env (requests s) = Replied resp \<and> status_code resp \<noteq> 200 \<and> json_body resp = Some j \<longrightarrow>
      set_connector_paused_status self b env s =
        (Inr (),
         \<lparr>requests = Suc (requests s),
          trace = trace s @
            [Patch (connector_url self) b, Print (UpdateError (status_code resp)),
             Print (Body j)]\<rparr>)) \<and>
   fst (set_connector_paused_status self b env s) = patch_result (env (requests s)) \<and>
   (start_succeeds env \<and> k < fuel \<and>
    (\<forall>i<k. read_sync_state (env (poll_base env + i)) = Inr (JStr ''syncing'')) \<and>
    read_sync_state (env (poll_base env + k)) = Inr st \<and> st \<noteq> JStr ''syncing'' \<and>
    patch_result (env (poll_base env + Suc k)) = Inr () \<longrightarrow>
      fst (call fuel self env) = Some (Inr ()))"
proof (intro conjI impI)
  assume "env (requests s) = Replied resp \<and> status_code resp = 200"
  then show "set_connector_paused_status self b env s =
        (Inr (),
         \<lparr>requests = Suc (requests s),
          trace = trace s @
            [Patch (connector_url self) b, Print (Updated (CONNECTOR_NAME self) b)]\<rparr>)"
    by (simp add: set_connector_paused_status_def request_def emit_def)
next
  assume "env (requests s) = Replied resp \<and> status_code resp \<noteq> 200 \<and> json_body resp = Some j"
  then show "set_connector_paused_status self b env s =
        (Inr (),
         \<lparr>requests = Suc (requests s),
          trace = trace s @
            [Patch (connector_url self) b, Print (UpdateError (status_code resp)),
             Print (Body j)]\<rparr>)"
    by (simp add: set_connector_paused_status_def request_def emit_def response_json_def)
next
  show "fst (set_connector_paused_status self b env s) = patch_result (env (requests s))"
    by (simp add: set_paused_eq)
next
  assume h: "start_succeeds env \<and> k < fuel \<and>
    (\<forall>i<k. read_sync_state (env (poll_base env + i)) = Inr (JStr ''syncing'')) \<and>
    read_sync_state (env (poll_base env + k)) = Inr st \<and> st \<noteq> JStr ''syncing'' \<and>
    patch_result (env (poll_base env + Suc k)) = Inr ()"
  then have "call fuel self env =
     ((case patch_result (env (poll_base env + Suc k)) of
         Inl e \<Rightarrow> Some (Inl e) | Inr u \<Rightarrow> Some (Inr ())),
      \<lparr>requests = poll_base env + Suc (Suc k),
       trace = prologue self env @ [Print Waiting, Sleep 15] @
               concat (replicate k (syncing_round self)) @ finishing self st @
               patch_log self True (env (poll_base env + Suc k)) @
               (case patch_result (env (poll_base env + Suc k)) of
                  Inl e \<Rightarrow> [] | Inr u \<Rightarrow> [Print StartPipeline])\<rparr>)"
    by (intro call_reaches_pause) simp_all
  with h show "fst (call fuel self env) = Some (Inr ())"
    by simp
qed


theorem mutation_reports_and_run_continues_witness:
  "world_paused (requests \<lparr>requests = 1, trace = [Get (status_url example_api)]\<rparr>) =
     Replied \<lparr>status_code = 200, json_body = Some (JObj [])\<rparr> \<and>
   set_connector_paused_status example_api False world_paused
       \<lparr>requests = 1, trace = [Get (status_url example_api)]\<rparr> =
     (Inr (),
      \<lparr>requests = 2,
       trace = [Get (status_url example_api), Patch (connector_url example_api) False,
                Print (Updated (CONNECTOR_NAME example_api) False)]\<rparr>) \<and>
   world_refused (requests \<lparr>requests = 1, trace = [Get (status_url example_api)]\<rparr>) =
     Replied \<lparr>status_code = 500, json_body = Some (JObj [(''code'', JStr ''ServerError'')])\<rparr> \<and>
   set_connector_paused_status example_api False world_refused
       \<lparr>requests = 1, trace = [Get (status_url example_api)]\<rparr> =
     (Inr (),
      \<lparr>requests = 2,
       trace = [Get (status_url example_api), Patch (connector_url example_api) False,
                Print (UpdateError 500),
                Print (Body (JObj [(''code'', JStr ''ServerError'')]))]\<rparr>) \<and>
   start_succeeds world_refused \<and>
   read_sync_state (world_refused (poll_base world_refused + 0)) = Inr (JStr ''rescheduled'') \<and>
   patch_result (world_refused (poll_base world_refused + Suc 0)) = Inr () \<and>
   fst (call 5 example_api world_refused) = Some (Inr ())"
proof -
  let ?s = "\<lparr>requests = 1, trace = [Get (status_url example_api)]\<rparr>"
  let ?ack = "\<lparr>status_code = 200, json_body = Some (JObj [])\<rparr>"
  let ?ref = "\<lparr>status_code = 500, json_body = Some (JObj [(''code'', JStr ''ServerError'')])\<rparr>"
  have a: "world_paused (requests ?s) = Replied ?ack \<and> status_code ?ack = 200"
    by (simp add: world_paused_def world_of_def ack_reply_def)
  have b: "world_refused (requests ?s) = Replied ?ref \<and> status_code ?ref \<noteq> 200 \<and>
      json_body ?ref = Some (JObj [(''code'', JStr ''ServerError'')])"
    by (simp add: world_refused_def world_of_def refusal_def)
  have base: "poll_base world_refused = 2"
    by (simp add: poll_base_def world_refused_def world_of_def)
  have c: "start_succeeds world_refused"
    by (simp add: start_succeeds_def world_refused_def world_of_def patch_result_def refusal_def)
  have d: "read_sync_state (world_refused (poll_base world_refused + 0)) = Inr (JStr ''rescheduled'')"
    by (simp add: base) (simp add: world_refused_def world_of_def)
  have e: "patch_result (world_refused (poll_base world_refused + Suc 0)) = Inr ()"
    by (simp add: base) (simp add: world_refused_def world_of_def patch_result_def refusal_def)
  have f: "start_succeeds world_refused \<and> (0::nat) < 5 \<and>
    (\<forall>i<0. read_sync_state (world_refused (poll_base world_refused + i)) = Inr (JStr ''syncing'')) \<and>
    read_sync_state (world_refused (poll_base world_refused + 0)) = Inr (JStr ''rescheduled'') \<and>
    JStr ''rescheduled'' \<noteq> JStr ''syncing'' \<and>
    patch_result (world_refused (poll_base world_refused + Suc 0)) = Inr ()"
    using c d e by simp
  have one: "set_connector_paused_status example_api False world_paused ?s =
      (Inr (),
       \<lparr>requests = Suc (requests ?s),
        trace = trace ?s @
          [Patch (connector_url example_api) False,
           Print (Updated (CONNECTOR_NAME example_api) False)]\<rparr>)"
    using a mutation_reports_and_run_continues
      [where env = world_paused and s = ?s and resp = ?ack and self = example_api and b = False]
    by blast
  have two: "set_connector_paused_status example_api False world_refused ?s =
      (Inr (),
       \<lparr>requests = Suc (requests ?s),
        trace = trace ?s @
          [Patch (connector_url example_api) False, Print (UpdateError (status_code ?ref)),
           Print (Body (JObj [(''code'', JStr ''ServerError'')]))]\<rparr>)"
    using b mutation_reports_and_run_continues
      [where env = world_refused and s = ?s and resp = ?ref and self = example_api and b = False
         and j = "JObj [(''code'', JStr ''ServerError'')]"]
    by blast
  have three: "fst (call 5 example_api world_refused) = Some (Inr ())"
    using f mutation_reports_and_run_continues
      [where env = world_refused and k = 0 and fuel = 5 and st = "JStr ''rescheduled''"
         and self = example_api]
    by blast
  show ?thesis
    using a b c d e one two three by simp
qed

text \<open>
  C7. A name that is not a key of the table makes the constructor raise \<open>KeyError\<close>,
  and the script ends with that error before any request: its trace is empty. A name
  that is a key is resolved to the one identifier the table holds for it.
\<close>

theorem unknown_name_fails_before_any_request:
  "(name \<notin> fst ` set connector_ids \<longrightarrow>
      FivetranAPI_init secrets name = Inl (KeyError name) \<and>
      main fuel secrets name env = (Some (Inl (KeyError name)), \<lparr>requests = 0, trace = []\<rparr>)) \<and>
   (name \<in> fst ` set connector_ids \<longrightarrow>
      (\<exists>!cid. (name, cid) \<in> set connector_ids \<and>
         (\<exists>self. FivetranAPI_init secrets name = Inr self \<and> CONNECTOR_NAME self = cid \<and>
            main fuel secrets name env = call fuel self env)))"
proof (intro conjI impI)
  assume "name \<notin> fst ` set connector_ids"
  then have none: "map_of connector_ids name = None"
    by (simp add: map_of_eq_None_iff)
  show "FivetranAPI_init secrets name = Inl (KeyError name)"
    by (simp add: FivetranAPI_init_def none)
  then show "main fuel secrets name env =
      (Some (Inl (KeyError name)), \<lparr>requests = 0, trace = []\<rparr>)"
    by (simp add: main_def start_state_def)
next
  assume "name \<in> fst ` set connector_ids"
  have dist: "distinct (map fst connector_ids)"
    by (simp add: connector_ids_def)
  from \<open>name \<in> fst ` set connector_ids\<close> obtain cid where mem: "(name, cid) \<in> set connector_ids"
    by force
  have some: "map_of connector_ids name = Some cid"
    using dist mem by simp
  have uniq: "\<And>c. (name, c) \<in> set connector_ids \<Longrightarrow> c = cid"
    using dist some by simp
  show "\<exists>!cid. (name, cid) \<in> set connector_ids \<and>
         (\<exists>self. FivetranAPI_init secrets name = Inr self \<and> CONNECTOR_NAME self = cid \<and>
            main fuel secrets name env = call fuel self env)"
  proof (rule ex1I [of _ cid])
    show "(name, cid) \<in> set connector_ids \<and>
         (\<exists>self. FivetranAPI_init secrets name = Inr self \<and> CONNECTOR_NAME self = cid \<and>
            main fuel secrets name env = call fuel self env)"
      using mem by (simp add: FivetranAPI_init_def main_def some)
  next
    fix c
    assume "(name, c) \<in> set connector_ids \<and>
         (\<exists>self. FivetranAPI_init secrets name = Inr self \<and> CONNECTOR_NAME self = c \<and>
            main fuel secrets name env = call fuel self env)"
    then show "c = cid" using uniq by blast
  qed
qed

theorem unknown_name_fails_before_any_request_witness:
  "''not_a_connector'' \<notin> fst ` set connector_ids \<and>
   main 5 (\<lambda>scope key. key) ''not_a_connector'' world_paused =
     (Some (Inl (KeyError ''not_a_connector'')), \<lparr>requests = 0, trace = []\<rparr>) \<and>
   ''hubspot'' \<in> fst ` set connector_ids \<and>
   (\<exists>!cid. (''hubspot'', cid) \<in> set connector_ids \<and>
      (\<exists>self. FivetranAPI_init (\<lambda>scope key. key) ''hubspot'' = Inr self \<and>
         CONNECTOR_NAME self = cid \<and>
         main 5 (\<lambda>scope key. key) ''hubspot'' world_paused = call 5 self world_paused))"
proof -
  have a: "''not_a_connector'' \<notin> fst ` set connector_ids"
    by (simp add: connector_ids_def)
  have b: "''hubspot'' \<in> fst ` set connector_ids"
    by (simp add: connector_ids_def)
  from a b
    unknown_name_fails_before_any_request
      [of "''not_a_connector''" "\<lambda>scope key. key" 5 world_paused]
    unknown_name_fails_before_any_request
      [of "''hubspot''" "\<lambda>scope key. key" 5 world_paused]
  show ?thesis by blast
qed

text \<open>
  C8, as the spec states it, fails: \<open>raise_for_status\<close> raises for the codes 400 to
  599 only, so a response with status 300 and a well-formed body yields its status, and
  one with status 304 and no body fails in \<open>.json()\<close>, not with a transport error.
\<close>

theorem status_read_outcomes_counterexample:
  "read_sync_state
     (Replied \<lparr>status_code = 300,
        json_body = Some (JObj [(''data'', JObj [(''status'',
                      JObj [(''sync_state'', JStr ''syncing'')])])])\<rparr>) =
     Inr (JStr ''syncing'') \<and>
   read_sync_state (Replied \<lparr>status_code = 304, json_body = None\<rparr>) = Inl JSONDecodeError"
  by (simp add: read_sync_state_def raise_for_status_def response_json_def)

lemma getitem_cases:
  "getitem j k = (case j of JObj kvs \<Rightarrow> (case map_of kvs k of None \<Rightarrow> Inl (KeyError k) | Some v \<Rightarrow> Inr v)
                  | _ \<Rightarrow> Inl TypeError)"
  by (cases j) simp_all

lemma read_field_absent:
  assumes "\<not> (400 \<le> status_code resp \<and> status_code resp < 600)"
    and "sync_state_field resp = None"
  shows "\<exists>e. read_sync_state (Replied resp) = Inl e \<and> is_ProtocolError e"
  using assms
  by (auto simp: read_sync_state_def raise_for_status_def response_json_def sync_state_field_def
      getitem_cases is_ProtocolError_def split: option.splits json.splits)

lemma read_field_present:
  assumes "\<not> (400 \<le> status_code resp \<and> status_code resp < 600)"
    and "sync_state_field resp = Some v"
  shows "read_sync_state (Replied resp) = Inr v"
  using assms
  by (auto simp: read_sync_state_def raise_for_status_def response_json_def sync_state_field_def
      getitem_cases split: option.splits json.splits)

text \<open>
  C8, amended. A status read fails with a \<open>TransportError\<close> when the request fails or
  the status code is between 400 and 599; for every other status code it fails with a
  \<open>ProtocolError\<close> when the field \<open>data.status.sync_state\<close> is absent from the body
  and returns the value of the field otherwise; each call issues exactly one request.
\<close>

theorem status_read_outcomes:
  "read_sync_state Failed = Inl ConnectionError \<and> is_TransportError ConnectionError \<and>
   (400 \<le> status_code resp \<and> status_code resp < 600 \<longrightarrow>
      read_sync_state (Replied resp) = Inl (HTTPError (status_code resp)) \<and>
      is_TransportError (HTTPError (status_code resp))) \<and>
   (\<not> (400 \<le> status_code resp \<and> status_code resp < 600) \<and> sync_state_field resp = None \<longrightarrow>
      (\<exists>e. read_sync_state (Replied resp) = Inl e \<and> is_ProtocolError e)) \<and>
   (\<forall>v. \<not> (400 \<le> status_code resp \<and> status_code resp < 600) \<and>
        sync_state_field resp = Some v \<longrightarrow>
      read_sync_state (Replied resp) = Inr v) \<and>
   get_sync_status self env s =
     (read_sync_state (env (requests s)),
      \<lparr>requests = Suc (requests s), trace = trace s @ [Get (status_url self)]\<rparr>)"
proof (intro conjI impI allI)
  show "read_sync_state Failed = Inl ConnectionError"
    by (simp add: read_sync_state_def)
  show "is_TransportError ConnectionError"
    by (simp add: is_TransportError_def)
  show "get_sync_status self env s =
     (read_sync_state (env (requests s)),
      \<lparr>requests = Suc (requests s), trace = trace s @ [Get (status_url self)]\<rparr>)"
    by (simp add: get_sync_status_def request_def)
next
  assume "400 \<le> status_code resp \<and> status_code resp < 600"
  then show "read_sync_state (Replied resp) = Inl (HTTPError (status_code resp))"
    by (simp add: read_sync_state_def raise_for_status_def)
next
  show "is_TransportError (HTTPError (status_code resp))"
    by (simp add: is_TransportError_def)
next
  assume "\<not> (400 \<le> status_code resp \<and> status_code resp < 600) \<and> sync_state_field resp = None"
  then show "\<exists>e. read_sync_state (Replied resp) = Inl e \<and> is_ProtocolError e"
    using read_field_absent by blast
next
  fix v
  assume "\<not> (400 \<le> status_code resp \<and> status_code resp < 600) \<and> sync_state_field resp = Some v"
  then show "read_sync_state (Replied resp) = Inr v"
    using read_field_present by blast
qed

theorem status_read_outcomes_witness:
  "read_sync_state (Replied \<lparr>status_code = 503, json_body = None\<rparr>) = Inl (HTTPError 503) \<and>
   (\<exists>e. read_sync_state
          (Replied \<lparr>status_code = 200, json_body = Some (JObj [(''data'', JNull)])\<rparr>) = Inl e \<and>
        is_ProtocolError e) \<and>
   read_sync_state
     (Replied \<lparr>status_code = 200,
        json_body = Some (JObj [(''data'', JObj [(''status'',
                      JObj [(''sync_state'', JStr ''paused'')])])])\<rparr>) =
     Inr (JStr ''paused'')"
proof -
  let ?down = "\<lparr>status_code = 503, json_body = None\<rparr>"
  let ?odd = "\<lparr>status_code = 200, json_body = Some (JObj [(''data'', JNull)])\<rparr>"
  let ?good = "\<lparr>status_code = 200,
        json_body = Some (JObj [(''data'', JObj [(''status'',
                      JObj [(''sync_state'', JStr ''paused'')])])])\<rparr>"
  have a: "400 \<le> status_code ?down \<and> status_code ?down < 600"
    by simp
  have b: "\<not> (400 \<le> status_code ?odd \<and> status_code ?odd < 600) \<and> sync_state_field ?odd = None"
    by (simp add: sync_state_field_def)
  have c: "\<not> (400 \<le> status_code ?good \<and> status_code ?good < 600) \<and>
      sync_state_field ?good = Some (JStr ''paused'')"
    by (simp add: sync_state_field_def)
  have "read_sync_state (Replied ?down) = Inl (HTTPError (status_code ?down))"
    using a status_read_outcomes [where resp = ?down] by blast
  moreover have "\<exists>e. read_sync_state (Replied ?odd) = Inl e \<and> is_ProtocolError e"
    using b status_read_outcomes [where resp = ?odd] by blast
  moreover have "read_sync_state (Replied ?good) = Inr (JStr ''paused'')"
    using c status_read_outcomes [where resp = ?good] by blast
  ultimately show ?thesis by simp
qed

text \<open>
  C10. If the very first status read of a run raises, the run aborts with that error
  after the single \<open>GET\<close>: no unpause and no pause request is ever issued.
\<close>

theorem first_read_failure_aborts_without_mutation:
  "read_sync_state (env 0) = Inl e \<Longrightarrow>
     call fuel self env =
       (Some (Inl e), \<lparr>requests = 1, trace = [Get (status_url self)]\<rparr>)"
  by (simp add: call_def get_sync_status_def start_state_def request_def)

theorem first_read_failure_aborts_without_mutation_witness:
  "read_sync_state ((\<lambda>n. Failed) 0) = Inl ConnectionError \<and>
   call 5 \<lparr>URL = ''u'', API_KEY = ''k'', API_SECRET = ''s'', CONNECTOR_NAME = ''c''\<rparr> (\<lambda>n. Failed) =
     (Some (Inl ConnectionError),
      \<lparr>requests = 1,
       trace = [Get (status_url \<lparr>URL = ''u'', API_KEY = ''k'', API_SECRET = ''s'', CONNECTOR_NAME = ''c''\<rparr>)]\<rparr>)"
proof -
  have h: "read_sync_state ((\<lambda>n. Failed) 0) = Inl ConnectionError"
    by (simp add: read_sync_state_def)
  show ?thesis
    using h first_read_failure_aborts_without_mutation [OF h, of 5] by simp
qed

end
